theory Spec2Isabelle
  imports Complex_Main "HOL-Library.Monad_Syntax"
begin

section \<open>JavaScript numbers and Date values\<close>

text \<open>
  A JavaScript number that the modelled code only ever holds as an integer or as NaN is an
  \<open>int option\<close>, \<open>None\<close> being NaN. A \<open>Date\<close> object is its time value (milliseconds since
  1970-01-01T00:00:00Z), \<open>None\<close> being the Invalid Date. The relational operators of
  JavaScript are false as soon as one operand is NaN.
\<close>

type_synonym jsnum = "int option"
type_synonym jsdate = "int option"

definition js_lt :: "jsnum \<Rightarrow> jsnum \<Rightarrow> bool" where
  "js_lt a b = (case a of None \<Rightarrow> False | Some x \<Rightarrow> (case b of None \<Rightarrow> False | Some y \<Rightarrow> x < y))"

definition js_le :: "jsnum \<Rightarrow> jsnum \<Rightarrow> bool" where
  "js_le a b = (case a of None \<Rightarrow> False | Some x \<Rightarrow> (case b of None \<Rightarrow> False | Some y \<Rightarrow> x \<le> y))"

definition js_gt :: "jsnum \<Rightarrow> jsnum \<Rightarrow> bool" where
  "js_gt a b = js_lt b a"

definition js_ge :: "jsnum \<Rightarrow> jsnum \<Rightarrow> bool" where
  "js_ge a b = js_le b a"

subsection \<open>The date algorithms of ECMAScript (ECMA-262, Date objects)\<close>

definition msPerDay :: int where
  "msPerDay = 86400000"

definition Day :: "int \<Rightarrow> int" where
  "Day t = t div msPerDay"

definition DaysInYear :: "int \<Rightarrow> int" where
  "DaysInYear y = (if y mod 4 \<noteq> 0 then 365 else if y mod 100 \<noteq> 0 then 366
                   else if y mod 400 \<noteq> 0 then 365 else 366)"

definition DayFromYear :: "int \<Rightarrow> int" where
  "DayFromYear y = 365 * (y - 1970) + (y - 1969) div 4 - (y - 1901) div 100 + (y - 1601) div 400"

text \<open>
  ECMAScript defines the year of a day as the largest \<open>y\<close> with \<open>DayFromYear y \<le> d\<close>. The
  executable form below estimates the year from the mean length of a Gregorian year and
  corrects the estimate by at most one; lemmas \<open>YearFromDay_bounds\<close> and \<open>YearFromDay_unique\<close>
  show that it is the year ECMAScript defines.
\<close>

definition YearFromDay :: "int \<Rightarrow> int" where
  "YearFromDay d = (let y = 1970 + (400 * d) div 146097 in
     if DayFromYear (y + 1) \<le> d then y + 1
     else if DayFromYear y \<le> d then y else y - 1)"

definition YearFromTime :: "int \<Rightarrow> int" where
  "YearFromTime t = YearFromDay (Day t)"

definition leapDays :: "int \<Rightarrow> int" where
  "leapDays y = (if DaysInYear y = 366 then 1 else 0)"

definition DayWithinYear :: "int \<Rightarrow> int" where
  "DayWithinYear d = d - DayFromYear (YearFromDay d)"

definition MonthFromDay :: "int \<Rightarrow> int" where
  "MonthFromDay d = (let w = DayWithinYear d; l = leapDays (YearFromDay d) in
     if w < 31 then 0 else if w < 59 + l then 1 else if w < 90 + l then 2
     else if w < 120 + l then 3 else if w < 151 + l then 4 else if w < 181 + l then 5
     else if w < 212 + l then 6 else if w < 243 + l then 7 else if w < 273 + l then 8
     else if w < 304 + l then 9 else if w < 334 + l then 10 else 11)"

definition MonthFromTime :: "int \<Rightarrow> int" where
  "MonthFromTime t = MonthFromDay (Day t)"

definition DateFromDay :: "int \<Rightarrow> int" where
  "DateFromDay d = (let w = DayWithinYear d; l = leapDays (YearFromDay d); m = MonthFromDay d in
     if m = 0 then w + 1 else if m = 1 then w - 30 else if m = 2 then w - 58 - l
     else if m = 3 then w - 89 - l else if m = 4 then w - 119 - l else if m = 5 then w - 150 - l
     else if m = 6 then w - 180 - l else if m = 7 then w - 211 - l else if m = 8 then w - 242 - l
     else if m = 9 then w - 272 - l else if m = 10 then w - 303 - l else w - 333 - l)"

definition DateFromTime :: "int \<Rightarrow> int" where
  "DateFromTime t = DateFromDay (Day t)"

definition WeekDay :: "int \<Rightarrow> int" where
  "WeekDay t = (Day t + 4) mod 7"

definition MakeTime :: "int \<Rightarrow> int \<Rightarrow> int \<Rightarrow> int \<Rightarrow> int" where
  "MakeTime h m s ms = h * 3600000 + m * 60000 + s * 1000 + ms"

text \<open>Number of days of the year that precede month \<open>mn\<close> (0 = January).\<close>

definition monthStart :: "int \<Rightarrow> int \<Rightarrow> int" where
  "monthStart mn l =
    (if mn = 0 then 0 else if mn = 1 then 31 else if mn = 2 then 59 + l
     else if mn = 3 then 90 + l else if mn = 4 then 120 + l else if mn = 5 then 151 + l
     else if mn = 6 then 181 + l else if mn = 7 then 212 + l else if mn = 8 then 243 + l
     else if mn = 9 then 273 + l else if mn = 10 then 304 + l else 334 + l)"

text \<open>
  ECMAScript's MakeDay: the day number of the first of month \<open>month mod 12\<close> of year
  \<open>year + floor (month / 12)\<close>, plus \<open>date - 1\<close> (lemma \<open>MakeDay_first\<close>).
\<close>

definition MakeDay :: "int \<Rightarrow> int \<Rightarrow> int \<Rightarrow> int" where
  "MakeDay year month dt = (let ym = year + month div 12; mn = month mod 12 in
     DayFromYear ym + monthStart mn (leapDays ym) + dt - 1)"

definition MakeDate :: "int \<Rightarrow> int \<Rightarrow> int" where
  "MakeDate day time = day * msPerDay + time"

definition TimeClip :: "int \<Rightarrow> jsnum" where
  "TimeClip t = (if \<bar>t\<bar> > 8640000000000000 then None else Some t)"

text \<open>The legacy rule of \<open>Date.UTC\<close> and of the \<open>Date\<close> constructor: a year 0..99 means 1900 + year.\<close>

definition fullYear :: "int \<Rightarrow> int" where
  "fullYear y = (if 0 \<le> y \<and> y \<le> 99 then 1900 + y else y)"

text \<open>\<open>Date.UTC(year, month, date, hours, minutes, seconds, ms)\<close> on integer arguments.\<close>

definition Date_UTC :: "int \<Rightarrow> int \<Rightarrow> int \<Rightarrow> int \<Rightarrow> int \<Rightarrow> int \<Rightarrow> int \<Rightarrow> jsnum" where
  "Date_UTC year month dt h mi s ms =
     TimeClip (MakeDate (MakeDay (fullYear year) month dt) (MakeTime h mi s ms))"

text \<open>
  \<open>new Date(year, month, date)\<close> reads its arguments in local time. The local time zone is a
  parameter \<open>tz\<close>, the offset of local time from UTC in milliseconds, taken as constant
  (daylight saving changes are not modelled).
\<close>

definition Date_local :: "int \<Rightarrow> int \<Rightarrow> int \<Rightarrow> int \<Rightarrow> jsdate" where
  "Date_local tz year month dt = TimeClip (MakeDate (MakeDay (fullYear year) month dt) 0 - tz)"

definition getDate :: "int \<Rightarrow> jsdate \<Rightarrow> jsnum" where
  "getDate tz d = map_option (\<lambda>t. DateFromTime (t + tz)) d"

definition getMonth :: "int \<Rightarrow> jsdate \<Rightarrow> jsnum" where
  "getMonth tz d = map_option (\<lambda>t. MonthFromTime (t + tz)) d"

definition getFullYear :: "int \<Rightarrow> jsdate \<Rightarrow> jsnum" where
  "getFullYear tz d = map_option (\<lambda>t. YearFromTime (t + tz)) d"

definition getUTCFullYear :: "jsdate \<Rightarrow> jsnum" where
  "getUTCFullYear d = map_option YearFromTime d"

definition getUTCMonth :: "jsdate \<Rightarrow> jsnum" where
  "getUTCMonth d = map_option MonthFromTime d"

definition getUTCDate :: "jsdate \<Rightarrow> jsnum" where
  "getUTCDate d = map_option DateFromTime d"

definition getUTCDay :: "jsdate \<Rightarrow> jsnum" where
  "getUTCDay d = map_option WeekDay d"

section \<open>Strings and numbers\<close>

definition digitChar :: "nat \<Rightarrow> char" where
  "digitChar n = ''0123456789'' ! n"

fun natToString :: "nat \<Rightarrow> string" where
  "natToString n = (if n < 10 then [digitChar n] else natToString (n div 10) @ [digitChar (n mod 10)])"

declare natToString.simps [simp del]

text \<open>\<open>Number.prototype.toString\<close> on an integer.\<close>

definition numberToString :: "int \<Rightarrow> string" where
  "numberToString i = (if i < 0 then CHR ''-'' # natToString (nat (- i)) else natToString (nat i))"

text \<open>\<open>s.padStart(2)\<close>: pad with spaces on the left up to length 2.\<close>

definition padStart2 :: "string \<Rightarrow> string" where
  "padStart2 s = replicate (2 - length s) CHR '' '' @ s"

text \<open>
  \<open>Math.round\<close>: the nearest integer, a tie going up. The quotient of the two counters is
  taken in exact rational arithmetic; for the counters the day loop can produce (at most 31)
  the double-precision computation of the source yields the same integer.
\<close>

definition Math_round :: "rat \<Rightarrow> int" where
  "Math_round x = \<lfloor>x + 1 / 2\<rfloor>"

section \<open>The attendance calendar (src/commands/attendance.ts)\<close>

text \<open>
  What \<open>generateCalendarEmbed\<close> and \<open>execute\<close> take from outside the repository's sources:
  the local time zone, the constant \<open>TRACKING_START_DATE\<close> of module attendanceService (not
  among the sources, so a parameter), the locale-dependent formatting of dates, and the text
  rendering of the cli-table3 table.
\<close>

datatype cell = Str string | Cell string | HeaderCell string nat

record env =
  tzOffset :: int
  TRACKING_START_DATE :: jsdate
  toLocaleDateString :: "jsdate \<Rightarrow> string"
  monthLong :: "jsdate \<Rightarrow> string"
  tableToString :: "cell list list \<Rightarrow> string"

record AttendanceRecord =
  date :: jsdate

record loop_state =
  totalRaidDays :: nat
  attendedRaidDays :: nat
  currentWeek :: "cell list"
  table :: "cell list list"

record embed =
  title :: string
  color :: nat
  description :: string

text \<open>The closure \<open>compareDates\<close> (lines 349-354); \<open>year\<close> and \<open>month\<close> are its captured variables.\<close>

definition compareDates :: "int \<Rightarrow> int \<Rightarrow> jsdate \<Rightarrow> jsdate \<Rightarrow> bool" where
  "compareDates year month date1 date2 =
     (case getUTCDate date2 of
        None \<Rightarrow> False
      | Some dd \<Rightarrow>
          (let startOfDay = Date_UTC year month dd 0 0 0 0;
               endOfDay = Date_UTC year month dd 23 59 59 999
           in js_ge date1 startOfDay \<and> js_le date1 endOfDay))"

definition green :: "string \<Rightarrow> string" where
  "green dayText = CHR 0x1B # ''[32;1m'' @ dayText @ CHR 0x1B # ''[0m''"

definition red :: "string \<Rightarrow> string" where
  "red dayText = CHR 0x1B # ''[31;1m'' @ dayText @ CHR 0x1B # ''[0m''"

text \<open>
  One iteration of the day loop (lines 360-389). An assignment \<open>currentWeek[NaN] = ...\<close> sets
  no element of the array.
\<close>

definition loopBody ::
  "env \<Rightarrow> AttendanceRecord list \<Rightarrow> int \<Rightarrow> int \<Rightarrow> int \<Rightarrow> jsdate \<Rightarrow> int \<Rightarrow> loop_state \<Rightarrow> loop_state" where
  "loopBody E monthAttendance year month lastDay lastDayToCount day st =
     (let dayDate = Date_UTC year month day 0 0 0 0;
          dayOfWeek = getUTCDay dayDate;
          isRaidDay = (dayOfWeek = Some 3 \<or> dayOfWeek = Some 6);
          isTrackingEnabled = js_ge dayDate (TRACKING_START_DATE E);
          dayText = padStart2 (numberToString day);
          (st1, dayText1) =
            (if isRaidDay \<and> js_le dayDate lastDayToCount then
               (if isTrackingEnabled then
                  (let st' = st\<lparr>totalRaidDays := totalRaidDays st + 1\<rparr>;
                       wasPresent = list_ex (\<lambda>record. compareDates year month (date record) dayDate)
                                      monthAttendance
                   in if wasPresent
                      then (st'\<lparr>attendedRaidDays := attendedRaidDays st' + 1\<rparr>, green dayText)
                      else (st', red dayText))
                else (st, dayText))
             else (st, dayText));
          week = (case dayOfWeek of
                    None \<Rightarrow> currentWeek st1
                  | Some i \<Rightarrow> (currentWeek st1)[nat i := Cell dayText1])
      in if dayOfWeek = Some 6 \<or> day = lastDay
         then st1\<lparr>currentWeek := replicate 7 (Cell ''  ''), table := table st1 @ [week]\<rparr>
         else st1\<lparr>currentWeek := week\<rparr>)"

text \<open>The loop \<open>for (let day = 1; day <= lastDay; day++)\<close>, entered at \<open>day\<close>.\<close>

function dayLoop ::
  "env \<Rightarrow> AttendanceRecord list \<Rightarrow> int \<Rightarrow> int \<Rightarrow> int \<Rightarrow> jsdate \<Rightarrow> int \<Rightarrow> loop_state \<Rightarrow> loop_state" where
  "dayLoop E monthAttendance year month lastDay lastDayToCount day st =
     (if day \<le> lastDay
      then dayLoop E monthAttendance year month lastDay lastDayToCount (day + 1)
             (loopBody E monthAttendance year month lastDay lastDayToCount day st)
      else st)"
  by pat_completeness auto
termination
  by (relation "measure (\<lambda>(E, ma, y, m, lastDay, c, day, st). nat (lastDay + 1 - day))") auto

declare dayLoop.simps [simp del]

text \<open>
  The same loop, returning the state at each evaluation of the loop condition: first the
  state before day 1, last the state the loop ends with (lemma \<open>dayLoop_last_states\<close>).
\<close>

function dayLoopStates ::
  "env \<Rightarrow> AttendanceRecord list \<Rightarrow> int \<Rightarrow> int \<Rightarrow> int \<Rightarrow> jsdate \<Rightarrow> int \<Rightarrow> loop_state \<Rightarrow> loop_state list" where
  "dayLoopStates E monthAttendance year month lastDay lastDayToCount day st =
     st # (if day \<le> lastDay
           then dayLoopStates E monthAttendance year month lastDay lastDayToCount (day + 1)
                  (loopBody E monthAttendance year month lastDay lastDayToCount day st)
           else [])"
  by pat_completeness auto
termination
  by (relation "measure (\<lambda>(E, ma, y, m, lastDay, c, day, st). nat (lastDay + 1 - day))") auto

declare dayLoopStates.simps [simp del]

text \<open>Lines 311-313: the records of the viewed year and month (UTC fields).\<close>

definition monthAttendanceOf :: "AttendanceRecord list \<Rightarrow> int \<Rightarrow> int \<Rightarrow> AttendanceRecord list" where
  "monthAttendanceOf attendanceData year month =
     filter (\<lambda>record. getUTCFullYear (date record) = Some year \<and> getUTCMonth (date record) = Some month)
       attendanceData"

text \<open>Line 344: \<open>new Date(year, month + 1, 0).getDate()\<close>.\<close>

definition lastDayOf :: "env \<Rightarrow> int \<Rightarrow> int \<Rightarrow> jsnum" where
  "lastDayOf E year month = getDate (tzOffset E) (Date_local (tzOffset E) year (month + 1) 0)"

text \<open>
  Lines 356-357. The source reads the clock three times (\<open>new Date()\<close>): \<open>nowY\<close> for the year
  test, \<open>nowM\<close> for the month test and \<open>nowC\<close> for the cutoff.
\<close>

definition isCurrentMonthOf :: "int \<Rightarrow> int \<Rightarrow> int \<Rightarrow> int \<Rightarrow> bool" where
  "isCurrentMonthOf year month nowY nowM = (year = YearFromTime nowY \<and> month = MonthFromTime nowM)"

definition lastDayToCountOf :: "int \<Rightarrow> int \<Rightarrow> int \<Rightarrow> int \<Rightarrow> int \<Rightarrow> jsdate" where
  "lastDayToCountOf year month nowY nowM nowC =
     (if isCurrentMonthOf year month nowY nowM then Some nowC
      else Date_UTC year (month + 1) 0 0 0 0 0)"

definition weekdayRow :: "cell list" where
  "weekdayRow = map Cell [''Su'', ''Mo'', ''Tu'', ''We'', ''Th'', ''Fr'', ''Sa'']"

definition initialState :: "env \<Rightarrow> int \<Rightarrow> int \<Rightarrow> loop_state" where
  "initialState E year month =
     \<lparr>totalRaidDays = 0, attendedRaidDays = 0, currentWeek = replicate 7 (Str ''  ''),
      table = [[HeaderCell (monthLong E (Date_local (tzOffset E) year month 1) @ '' '' @ numberToString year) 7],
               weekdayRow]\<rparr>"

text \<open>The state after the day loop of lines 359-390 (no iteration when \<open>lastDay\<close> is NaN).\<close>

definition calendarState ::
  "env \<Rightarrow> AttendanceRecord list \<Rightarrow> int \<Rightarrow> int \<Rightarrow> int \<Rightarrow> int \<Rightarrow> int \<Rightarrow> loop_state" where
  "calendarState E attendanceData year month nowY nowM nowC =
     (case lastDayOf E year month of
        None \<Rightarrow> initialState E year month
      | Some lastDay \<Rightarrow>
          dayLoop E (monthAttendanceOf attendanceData year month) year month lastDay
            (lastDayToCountOf year month nowY nowM nowC) 1 (initialState E year month))"

text \<open>Line 396.\<close>

definition attendanceRate :: "nat \<Rightarrow> nat \<Rightarrow> int" where
  "attendanceRate attended totalDays =
     (if totalDays \<noteq> 0 then Math_round ((of_nat attended / of_nat totalDays) * 100) else 0)"

definition noDataLine :: "env \<Rightarrow> string" where
  "noDataLine E = CHR 0x0A # ''No attendance data available yet. Tracking begins ''
                    @ toLocaleDateString E (TRACKING_START_DATE E)"

definition rateLine :: "int \<Rightarrow> nat \<Rightarrow> nat \<Rightarrow> string" where
  "rateLine rate attended totalDays =
     CHR 0x0A # ''Attendance Rate: '' @ numberToString rate @ ''% (''
       @ natToString attended @ ''/'' @ natToString totalDays @ '' raids)''"

definition codeBlock :: "env \<Rightarrow> loop_state \<Rightarrow> string" where
  "codeBlock E st = ''```ansi'' @ [CHR 0x0A] @ tableToString E (table st) @ [CHR 0x0A] @ ''```''"

text \<open>
  \<open>generateCalendarEmbed\<close> (lines 300-405). \<open>year\<close> and \<open>month\<close> are integers, as \<open>execute\<close>
  passes them; the three clock readings are parameters.
\<close>

definition generateCalendarEmbed ::
  "env \<Rightarrow> string \<Rightarrow> AttendanceRecord list \<Rightarrow> int \<Rightarrow> int \<Rightarrow> int \<Rightarrow> int \<Rightarrow> int \<Rightarrow> embed" where
  "generateCalendarEmbed E memberName attendanceData year month nowY nowM nowC =
     (let st = calendarState E attendanceData year month nowY nowM nowC;
          calendarText = codeBlock E st;
          rate = attendanceRate (attendedRaidDays st) (totalRaidDays st);
          calendarText' =
            (if attendedRaidDays st = 0 \<and> totalRaidDays st = 0
             then calendarText @ noDataLine E
             else calendarText @ rateLine rate (attendedRaidDays st) (totalRaidDays st))
      in \<lparr>title = ''Attendance Calendar for '' @ memberName, color = 3447003,
          description = calendarText'\<rparr>)"

section \<open>The command handler \<open>execute\<close> up to the member fetch (attendance.ts, lines 48-105)\<close>

text \<open>
  Strings are lists of code units below 256. \<open>parseInt(s)\<close> without a radix: leading white
  space is skipped, a sign is read, a prefix \<open>0x\<close> or \<open>0X\<close> selects radix 16, and the longest
  run of digits is the value; no digit gives NaN.
\<close>

definition isWhiteSpace :: "char \<Rightarrow> bool" where
  "isWhiteSpace c = (c \<in> set [CHR 0x09, CHR 0x0A, CHR 0x0B, CHR 0x0C, CHR 0x0D, CHR '' '', CHR 0xA0])"

definition decimalDigit :: "char \<Rightarrow> nat option" where
  "decimalDigit c = map_of (zip ''0123456789'' [0..<10]) c"

definition hexDigit :: "char \<Rightarrow> nat option" where
  "hexDigit c = map_of (zip ''0123456789abcdef'' [0..<16] @ zip ''ABCDEF'' [10..<16]) c"

definition parseInt :: "string \<Rightarrow> jsnum" where
  "parseInt inputString =
     (let S = dropWhile isWhiteSpace inputString;
          sign = (if take 1 S = ''-'' then - 1 else 1);
          S1 = (if take 1 S = ''+'' \<or> take 1 S = ''-'' then drop 1 S else S);
          hex = (take 2 S1 = ''0x'' \<or> take 2 S1 = ''0X'');
          S2 = (if hex then drop 2 S1 else S1);
          R = (if hex then 16 else 10);
          digit = (if hex then hexDigit else decimalDigit);
          Z = takeWhile (\<lambda>c. digit c \<noteq> None) S2
      in if Z = [] then None
         else Some (sign * int (foldl (\<lambda>n c. case digit c of None \<Rightarrow> n | Some v \<Rightarrow> n * R + v) 0 Z)))"

text \<open>\<open>parseInt\<close> of a value that may be \<open>undefined\<close> (\<open>None\<close>): the string "undefined" has no digit.\<close>

definition parseIntU :: "string option \<Rightarrow> jsnum" where
  "parseIntU s = (case s of None \<Rightarrow> None | Some str \<Rightarrow> parseInt str)"

text \<open>\<open>s.split(c)\<close> for a one-character separator.\<close>

fun split :: "char \<Rightarrow> string \<Rightarrow> string list" where
  "split c [] = [[]]"
| "split c (x # xs) =
     (if x = c then [] # split c xs
      else (case split c xs of [] \<Rightarrow> [[x]] | p # ps \<Rightarrow> (x # p) # ps))"

text \<open>
  What \<open>execute\<close> does to the outside, in order. \<open>FetchGuildMembers y m\<close> is the call of line
  105, reached with \<open>currentYear = y\<close> and \<open>currentMonth = m\<close>; the model ends there. The calls
  of the Discord interaction (\<open>deferReply\<close>, \<open>editReply\<close>) are taken to succeed.
\<close>

datatype action = DeferReply | EditReply string | FetchGuildMembers int jsnum

definition invalidFormat :: string where
  "invalidFormat = ''Invalid date format. Please use MM/YYYY format (e.g., 02/2024)''"

text \<open>
  Lines 59-95: \<open>Inl\<close> is the content of the \<open>editReply\<close> after which \<open>execute\<close> returns;
  \<open>Inr\<close> is \<open>(currentYear, currentMonth)\<close>. Reading \<open>yearStr.length\<close> of an undefined \<open>yearStr\<close>
  throws a TypeError, which the handler of line 222 reports by \<open>editReply\<close>.
\<close>

definition selectMonth :: "env \<Rightarrow> int \<Rightarrow> string option \<Rightarrow> string option \<Rightarrow> string + (int \<times> jsnum)" where
  "selectMonth E today requestedMonth customDate =
     (let currentYear = YearFromTime (today + tzOffset E);
          currentMonth = MonthFromTime (today + tzOffset E)
      in if customDate \<noteq> None \<and> customDate \<noteq> Some []
         then (case split CHR ''/'' (case customDate of None \<Rightarrow> [] | Some c \<Rightarrow> c) of
                 [] \<Rightarrow> Inl invalidFormat
               | monthStr # rest \<Rightarrow>
                  (let yearStr = (case rest of [] \<Rightarrow> None | y # _ \<Rightarrow> Some y);
                       month = map_option (\<lambda>m. m - 1) (parseInt monthStr);
                       year = parseIntU yearStr
                   in case month of
                        None \<Rightarrow> Inl invalidFormat
                      | Some m \<Rightarrow>
                         (case year of
                            None \<Rightarrow> Inl invalidFormat
                          | Some y \<Rightarrow>
                             if m < 0 \<or> m > 11 then Inl invalidFormat
                             else (case yearStr of
                                     None \<Rightarrow> Inl (''There was an error executing this command: ''
                                        @ ''Cannot read properties of undefined (reading 'length')'')
                                   | Some ys \<Rightarrow>
                                      if length ys \<noteq> 4 then Inl invalidFormat
                                      else (let customDateObj = Date_local (tzOffset E) y m 1
                                            in if js_lt customDateObj (TRACKING_START_DATE E)
                                               then Inl (''Cannot view attendance before tracking start date (''
                                                      @ toLocaleDateString E (TRACKING_START_DATE E) @ '')'')
                                               else if js_gt customDateObj (Some today)
                                               then Inl ''Cannot view future dates''
                                               else Inr (y, Some m))))))
         else (case requestedMonth of
                 None \<Rightarrow> Inr (currentYear, Some currentMonth)
               | Some rm \<Rightarrow>
                  (let monthIndex = parseInt rm
                   in if js_gt monthIndex (Some currentMonth)
                      then Inr (currentYear - 1, monthIndex)
                      else Inr (currentYear, monthIndex))))"

definition execute :: "env \<Rightarrow> int \<Rightarrow> string option \<Rightarrow> string option \<Rightarrow> bool \<Rightarrow> action list" where
  "execute E today requestedMonth customDate hasGuild =
     DeferReply #
       (case selectMonth E today requestedMonth customDate of
          Inl content \<Rightarrow> [EditReply content]
        | Inr (currentYear, currentMonth) \<Rightarrow>
            if \<not> hasGuild then [EditReply ''This command can only be used in a server.'']
            else [FetchGuildMembers currentYear currentMonth])"

section \<open>The PERSCOM client (src/services/request_perscom.ts)\<close>

text \<open>
  The fields of the three interfaces carry a prefix (\<open>sub_\<close>, \<open>f1_\<close>, \<open>du_\<close>), since the
  interfaces share field names.
\<close>

record Submission =
  sub_id :: int
  sub_form_id :: int
  sub_user_id :: int
  sub_created_at :: string
  sub_updated_at :: string
  sub_arma_3_id :: string
  sub_discord_name :: string
  sub_first_name :: string
  sub_date_of_birth :: string
  sub_email_address :: string
  sub_previous_unit :: int
  sub_preferred_position :: string
  sub_why_do_you_want_to_join_red_squadron :: string
  sub_label :: string

record Form1Submission =
  f1_first_name :: string
  f1_discord_name :: string
  f1_preferred_position :: string
  f1_user_id :: int
  f1_form_id :: int
  f1_date_of_birth :: string

record DeniedUsers =
  du_first_name :: string
  du_discord_name :: string
  du_user_id :: int
  du_preferred_position :: string
  du_form_id :: "int option"
  du_date_of_birth :: "string option"

text \<open>
  The outside world of the client. A request is answered by \<open>fetch\<close>, which may reject
  (\<open>NetworkError\<close>). Of a response the code reads, in the order of the arguments of
  \<open>HttpResponse\<close>: \<open>ok\<close>, \<open>status\<close>, \<open>statusText\<close>, the body as text (\<open>response.text()\<close>) and
  the body as JSON (\<open>response.json()\<close>); \<open>None\<close> for a body means that reading it rejects. Of the JSON
  the code reads \<open>data\<close> (\<open>None\<close>: not an array, so that \<open>data.filter\<close> throws) and
  \<open>meta.last_page\<close> (\<open>None\<close>: no \<open>meta\<close>, so that reading \<open>last_page\<close> throws; \<open>Some None\<close>: a
  value that no number is less than or equal to). The world is threaded through the calls,
  so an answer may depend on everything requested before.
\<close>

datatype request = GetSubmissions | GetSubmissionsPage int | DeleteUser int

record body =
  data :: "Submission list option"
  meta_last_page :: "jsnum option"

datatype response =
    NetworkError
  | HttpResponse bool int string "string option" "body option"

datatype event = Fetched request response | ConsoleError string | ConsoleLog string

type_synonym 'w fetch = "'w \<Rightarrow> request \<Rightarrow> response \<times> 'w"

text \<open>Lines 172-179: the object built from a submission.\<close>

definition toForm1 :: "Submission \<Rightarrow> Form1Submission" where
  "toForm1 submission =
     \<lparr>f1_first_name = sub_first_name submission,
      f1_discord_name = sub_discord_name submission,
      f1_preferred_position = sub_preferred_position submission,
      f1_user_id = sub_user_id submission,
      f1_form_id = sub_id submission,
      f1_date_of_birth = sub_date_of_birth submission\<rparr>"

text \<open>
  The loop \<open>while (page <= lastPage)\<close> of lines 154-187, entered with \<open>page\<close> and the list
  collected so far; it returns the list, the events and the world it ends with.
\<close>

function pageLoop ::
  "'w fetch \<Rightarrow> int \<Rightarrow> int \<Rightarrow> 'w \<Rightarrow> Form1Submission list \<Rightarrow> Form1Submission list \<times> event list \<times> 'w" where
  "pageLoop fetch lastPage page w allForm1Submissions =
     (if page \<le> lastPage then
        (case fetch w (GetSubmissionsPage page) of
           (NetworkError, w') \<Rightarrow>
             (allForm1Submissions,
              [Fetched (GetSubmissionsPage page) NetworkError,
               ConsoleError (''Error fetching data on page '' @ numberToString page @ '':'')], w')
         | (HttpResponse ok status statusText text json, w') \<Rightarrow>
             (let r = HttpResponse ok status statusText text json in
              if \<not> ok then
                (allForm1Submissions,
                 [Fetched (GetSubmissionsPage page) r,
                  ConsoleError (''Error fetching submissions for page '' @ numberToString page @ '': ''
                    @ numberToString status @ '' '' @ statusText)], w')
              else
                (case (case json of None \<Rightarrow> None | Some b \<Rightarrow> data b) of
                   None \<Rightarrow>
                     (allForm1Submissions,
                      [Fetched (GetSubmissionsPage page) r,
                       ConsoleError (''Error fetching data on page '' @ numberToString page @ '':'')], w')
                 | Some submissions \<Rightarrow>
                     (let form1Submissions =
                            map toForm1 (filter (\<lambda>submission. sub_form_id submission = 1) submissions);
                          (res, evs, w'') =
                            pageLoop fetch lastPage (page + 1) w' (allForm1Submissions @ form1Submissions)
                      in (res, Fetched (GetSubmissionsPage page) r # evs, w'')))))
      else (allForm1Submissions, [], w))"
  by pat_completeness auto
termination
  by (relation "measure (\<lambda>(f, lastPage, page, w, acc). nat (lastPage + 1 - page))") auto

declare pageLoop.simps [simp del]

text \<open>\<open>getAllForm1Data\<close> (lines 128-189).\<close>

definition getAllForm1Data :: "'w fetch \<Rightarrow> 'w \<Rightarrow> Form1Submission list \<times> event list \<times> 'w" where
  "getAllForm1Data fetch w =
     (let page = 4 in
      case fetch w GetSubmissions of
        (NetworkError, w') \<Rightarrow>
          ([], [Fetched GetSubmissions NetworkError, ConsoleError ''Error fetching metadata:''], w')
      | (HttpResponse ok status statusText text json, w') \<Rightarrow>
          (let r = HttpResponse ok status statusText text json in
           if \<not> ok then
             ([], [Fetched GetSubmissions r,
                   ConsoleError (''Metadata response error: '' @ numberToString status @ '' '' @ statusText)], w')
           else
             (case (case json of None \<Rightarrow> None | Some b \<Rightarrow> meta_last_page b) of
                None \<Rightarrow> ([], [Fetched GetSubmissions r, ConsoleError ''Error fetching metadata:''], w')
              | Some None \<Rightarrow> ([], [Fetched GetSubmissions r], w')
              | Some (Some lastPage) \<Rightarrow>
                  (let (res, evs, w'') = pageLoop fetch lastPage page w' []
                   in (res, Fetched GetSubmissions r # evs, w'')))))"

text \<open>One iteration of the loop of \<open>deleteUsers\<close> (lines 209-228): the events and the new world.\<close>

definition deleteUser :: "'w fetch \<Rightarrow> 'w \<Rightarrow> DeniedUsers \<Rightarrow> event list \<times> 'w" where
  "deleteUser fetch w user =
     (case fetch w (DeleteUser (du_user_id user)) of
        (NetworkError, w') \<Rightarrow>
          ([Fetched (DeleteUser (du_user_id user)) NetworkError,
            ConsoleError (''Error deleting user '' @ du_first_name user @ '':'')], w')
      | (HttpResponse ok status statusText text json, w') \<Rightarrow>
          (let r = HttpResponse ok status statusText text json in
           if \<not> ok then
             (case text of
                None \<Rightarrow>
                  ([Fetched (DeleteUser (du_user_id user)) r,
                    ConsoleError (''Error deleting user '' @ du_first_name user @ '':'')], w')
              | Some errorMsg \<Rightarrow>
                  ([Fetched (DeleteUser (du_user_id user)) r,
                    ConsoleError (''Failed to delete user '' @ du_first_name user @ '': ''
                      @ numberToString status @ '' '' @ statusText @ '' - '' @ errorMsg)], w'))
           else
             (case json of
                None \<Rightarrow>
                  ([Fetched (DeleteUser (du_user_id user)) r,
                    ConsoleError (''Error deleting user '' @ du_first_name user @ '':'')], w')
              | Some d \<Rightarrow>
                  ([Fetched (DeleteUser (du_user_id user)) r,
                    ConsoleLog (''Deleted user '' @ du_first_name user @ '':'')], w'))))"

text \<open>\<open>deleteUsers\<close> (lines 207-230): \<open>for (const user of users)\<close>.\<close>

fun deleteUsers :: "'w fetch \<Rightarrow> 'w \<Rightarrow> DeniedUsers list \<Rightarrow> event list \<times> 'w" where
  "deleteUsers fetch w [] = ([], w)"
| "deleteUsers fetch w (user # users) =
     (let (evs, w') = deleteUser fetch w user;
          (evs', w'') = deleteUsers fetch w' users
      in (evs @ evs', w''))"

text \<open>The requests of a list of events, in order.\<close>

fun requestsOf :: "event list \<Rightarrow> request list" where
  "requestsOf [] = []"
| "requestsOf (Fetched q r # evs) = q # requestsOf evs"
| "requestsOf (ConsoleError m # evs) = requestsOf evs"
| "requestsOf (ConsoleLog m # evs) = requestsOf evs"

text \<open>The messages written by \<open>console.error\<close>, in order.\<close>

fun errorsOf :: "event list \<Rightarrow> string list" where
  "errorsOf [] = []"
| "errorsOf (Fetched q r # evs) = errorsOf evs"
| "errorsOf (ConsoleError m # evs) = m # errorsOf evs"
| "errorsOf (ConsoleLog m # evs) = errorsOf evs"

text \<open>A response that \<open>deleteUsers\<close> treats as a failure: a rejected request, a status that is
  not ok, or a body that cannot be read.\<close>

definition deletionFailed :: "response \<Rightarrow> bool" where
  "deletionFailed r =
     (case r of NetworkError \<Rightarrow> True
      | HttpResponse ok status statusText text json \<Rightarrow> \<not> ok \<or> json = None)"

text \<open>The submissions a response carries in the \<open>data\<close> array of its body.\<close>

definition servedOn :: "response \<Rightarrow> Submission list" where
  "servedOn r = (case r of NetworkError \<Rightarrow> []
     | HttpResponse ok status statusText text json \<Rightarrow>
         (case json of None \<Rightarrow> [] | Some b \<Rightarrow> (case data b of None \<Rightarrow> [] | Some submissions \<Rightarrow> submissions)))"

text \<open>The responses of a list of events, in order.\<close>

fun responsesOf :: "event list \<Rightarrow> response list" where
  "responsesOf [] = []"
| "responsesOf (Fetched q r # evs) = r # responsesOf evs"
| "responsesOf (ConsoleError m # evs) = responsesOf evs"
| "responsesOf (ConsoleLog m # evs) = responsesOf evs"

section \<open>Definitions used to state the claims\<close>

text \<open>
  The length of a month as the specification words it: the calendar-correct value, 29 for
  February in leap years and 28 in other years (Gregorian rule), months counted from 0.
\<close>

definition calendarMonthLength :: "int \<Rightarrow> int \<Rightarrow> int" where
  "calendarMonthLength year month =
     (if month = 1 then
        (if year mod 4 = 0 \<and> (year mod 100 \<noteq> 0 \<or> year mod 400 = 0) then 29 else 28)
      else if month = 3 \<or> month = 5 \<or> month = 8 \<or> month = 10 then 30 else 31)"

text \<open>
  The guards of the loop body, named: \<open>isCountedDay\<close> is the condition of lines 369-370 under
  which line 371 increments \<open>totalRaidDays\<close>; \<open>wasPresentOn\<close> is \<open>wasPresent\<close> of lines 372-374.
\<close>

definition isCountedDay :: "env \<Rightarrow> int \<Rightarrow> int \<Rightarrow> jsdate \<Rightarrow> int \<Rightarrow> bool" where
  "isCountedDay E year month lastDayToCount day =
     (let dayDate = Date_UTC year month day 0 0 0 0;
          dayOfWeek = getUTCDay dayDate
      in (dayOfWeek = Some 3 \<or> dayOfWeek = Some 6) \<and> js_le dayDate lastDayToCount
         \<and> js_ge dayDate (TRACKING_START_DATE E))"

definition wasPresentOn :: "AttendanceRecord list \<Rightarrow> int \<Rightarrow> int \<Rightarrow> int \<Rightarrow> bool" where
  "wasPresentOn monthAttendance year month day =
     list_ex (\<lambda>record. compareDates year month (date record) (Date_UTC year month day 0 0 0 0))
       monthAttendance"

section \<open>Sample inputs\<close>

definition sampleTable :: "cell list list \<Rightarrow> string" where
  "sampleTable rows = ''(table)''"

definition sampleDateText :: "jsdate \<Rightarrow> string" where
  "sampleDateText d = ''1/1/2024''"

definition sampleMonthText :: "jsdate \<Rightarrow> string" where
  "sampleMonthText d = ''January''"

text \<open>UTC as the local time zone, tracking from 2024-01-01T00:00:00Z.\<close>

definition sampleEnv :: env where
  "sampleEnv = \<lparr>tzOffset = 0, TRACKING_START_DATE = Some 1704067200000,
     toLocaleDateString = sampleDateText, monthLong = sampleMonthText,
     tableToString = sampleTable\<rparr>"

text \<open>2024-01-04T12:00:00Z, a reading of the clock.\<close>

definition sampleNow :: int where
  "sampleNow = 1704369600000"

text \<open>Two records on Wednesday 2024-01-03 (20:00 UTC), one on Saturday 2023-12-30 (20:00 UTC).\<close>

definition sampleRecords :: "AttendanceRecord list" where
  "sampleRecords = [\<lparr>date = Some 1704312000000\<rparr>, \<lparr>date = Some 1704312000000\<rparr>]"

definition sampleOldRecords :: "AttendanceRecord list" where
  "sampleOldRecords = [\<lparr>date = Some 1703966400000\<rparr>]"

definition sampleSubmission :: "int \<Rightarrow> int \<Rightarrow> Submission" where
  "sampleSubmission i f =
     \<lparr>sub_id = i, sub_form_id = f, sub_user_id = 7, sub_created_at = '''', sub_updated_at = '''',
      sub_arma_3_id = '''', sub_discord_name = ''ann'', sub_first_name = ''Ann'',
      sub_date_of_birth = '''', sub_email_address = '''', sub_previous_unit = 0,
      sub_preferred_position = ''medic'', sub_why_do_you_want_to_join_red_squadron = '''',
      sub_label = ''''\<rparr>"

text \<open>
  A server with four pages: page \<open>p\<close> holds submission \<open>10 * p\<close> of form 1 and submission
  \<open>10 * p + 1\<close> of form 2. Deleting user 7 fails in the network, deleting user 8 is answered
  404, any other deletion succeeds. The world counts the requests.
\<close>

definition samplePage :: "int \<Rightarrow> response" where
  "samplePage p = HttpResponse True 200 ''OK'' None
     (Some \<lparr>data = Some [sampleSubmission (10 * p) 1, sampleSubmission (10 * p + 1) 2],
            meta_last_page = Some (Some 4)\<rparr>)"

definition sampleServer :: "nat fetch" where
  "sampleServer w q =
     (case q of
        GetSubmissions \<Rightarrow> (samplePage 1, w + 1)
      | GetSubmissionsPage p \<Rightarrow> (samplePage p, w + 1)
      | DeleteUser u \<Rightarrow>
          (if u = 7 then NetworkError
           else if u = 8 then HttpResponse False 404 ''Not Found'' (Some ''no such user'') None
           else HttpResponse True 200 ''OK'' None (Some \<lparr>data = None, meta_last_page = None\<rparr>),
           w + 1))"

definition sampleUser :: "int \<Rightarrow> DeniedUsers" where
  "sampleUser u = \<lparr>du_first_name = ''Bob'', du_discord_name = ''bob'', du_user_id = u,
     du_preferred_position = ''pilot'', du_form_id = None, du_date_of_birth = None\<rparr>"

definition sampleUsers :: "DeniedUsers list" where
  "sampleUsers = [sampleUser 7, sampleUser 8, sampleUser 9]"

section \<open>Facts about the date algorithms\<close>

lemma div_lo: "0 < k \<Longrightarrow> k * (a div k) \<le> (a::int)"
  using mult_div_mod_eq[of k a] pos_mod_sign[of k a] by linarith

lemma div_hi: "0 < k \<Longrightarrow> (a::int) < k * (a div k) + k"
  using mult_div_mod_eq[of k a] pos_mod_bound[of k a] by linarith

lemma year_estimate_lin_lo:
  "146097 * q \<le> 400 * d \<Longrightarrow> 4 * a \<le> q \<Longrightarrow> q + 68 < 100 * b + 100 \<Longrightarrow> 400 * c \<le> q + 368
    \<Longrightarrow> 365 * q - 365 + a - b + c \<le> (d::int)"
  by linarith

lemma year_estimate_lin_hi:
  "400 * d < 146097 * q + 146097 \<Longrightarrow> q + 3 < 4 * a + 4 \<Longrightarrow> 100 * b \<le> q + 71
    \<Longrightarrow> q + 371 < 400 * c + 400 \<Longrightarrow> (d::int) < 365 * q + 730 + a - b + c"
  by linarith

lemma year_estimate_lo: "DayFromYear (1970 + (400 * d) div 146097 - 1) \<le> d"
proof -
  define q where "q = (400 * d) div 146097"
  have a: "146097 * q \<le> 400 * d" unfolding q_def by (rule div_lo) simp
  have b: "4 * (q div 4) \<le> q" by (rule div_lo) simp
  have c: "q + 68 < 100 * ((q + 68) div 100) + 100" by (rule div_hi) simp
  have e: "400 * ((q + 368) div 400) \<le> q + 368" by (rule div_lo) simp
  have "DayFromYear (1970 + q - 1) = 365 * q - 365 + q div 4 - (q + 68) div 100 + (q + 368) div 400"
    unfolding DayFromYear_def by (simp add: algebra_simps)
  also have "\<dots> \<le> d" by (rule year_estimate_lin_lo[OF a b c e])
  finally show ?thesis unfolding q_def .
qed

lemma year_estimate_hi: "d < DayFromYear (1970 + (400 * d) div 146097 + 2)"
proof -
  define q where "q = (400 * d) div 146097"
  have a: "400 * d < 146097 * q + 146097" unfolding q_def by (rule div_hi) simp
  have b: "q + 3 < 4 * ((q + 3) div 4) + 4" by (rule div_hi) simp
  have c: "100 * ((q + 71) div 100) \<le> q + 71" by (rule div_lo) simp
  have e: "q + 371 < 400 * ((q + 371) div 400) + 400" by (rule div_hi) simp
  have "DayFromYear (1970 + q + 2) = 365 * q + 730 + (q + 3) div 4 - (q + 71) div 100 + (q + 371) div 400"
    unfolding DayFromYear_def by (simp add: algebra_simps)
  moreover have "d < 365 * q + 730 + (q + 3) div 4 - (q + 71) div 100 + (q + 371) div 400"
    by (rule year_estimate_lin_hi[OF a b c e])
  ultimately show ?thesis unfolding q_def by simp
qed

lemma div_step:
  assumes "0 < k"
  shows "((a::int) + 1) div k = a div k + (if (a + 1) mod k = 0 then 1 else 0)"
proof -
  define q r where "q = a div k" and "r = a mod k"
  have a: "a = k * q + r" by (simp add: q_def r_def)
  have r0: "0 \<le> r" and rk: "r < k" using assms by (simp_all add: r_def)
  show ?thesis
  proof (cases "r + 1 = k")
    case True
    then have e: "a + 1 = k * (q + 1) + 0" using a by (simp add: algebra_simps)
    have "(a + 1) div k = q + 1" by (rule int_div_pos_eq[OF e]) (use assms in simp_all)
    moreover have "(a + 1) mod k = 0" by (rule int_mod_pos_eq[OF e]) (use assms in simp_all)
    ultimately show ?thesis by (simp add: q_def)
  next
    case False
    have e: "a + 1 = k * q + (r + 1)" using a by simp
    have lt: "r + 1 < k" using False rk by simp
    have "(a + 1) div k = q" by (rule int_div_pos_eq[OF e]) (use r0 lt in simp_all)
    moreover have "(a + 1) mod k = r + 1" by (rule int_mod_pos_eq[OF e]) (use r0 lt in simp_all)
    ultimately show ?thesis using r0 by (simp add: q_def)
  qed
qed

lemma mod_shift: "((y::int) - k * m) mod m = y mod m"
proof -
  have "(y - k * m) mod m = (y + m * (- k)) mod m" by (simp add: algebra_simps)
  also have "\<dots> = y mod m" by (rule mod_mult_self2)
  finally show ?thesis .
qed
lemma m4: "((y::int) - 1968) mod 4 = 0 \<longleftrightarrow> y mod 4 = 0" using mod_shift[of y 492 4] by simp
lemma m100: "((y::int) - 1900) mod 100 = 0 \<longleftrightarrow> y mod 100 = 0" using mod_shift[of y 19 100] by simp
lemma m400: "((y::int) - 1600) mod 400 = 0 \<longleftrightarrow> y mod 400 = 0" using mod_shift[of y 4 400] by simp
lemma mod_400_100: "(y::int) mod 400 = 0 \<Longrightarrow> y mod 100 = 0"
proof -
  assume "y mod 400 = 0"
  then have "400 dvd y" by (simp add: mod_eq_0_iff_dvd)
  moreover have "(100::int) dvd 400" by simp
  ultimately have "100 dvd y" by (rule dvd_trans[rotated])
  then show ?thesis by (simp add: mod_eq_0_iff_dvd)
qed
lemma mod_100_4: "(y::int) mod 100 = 0 \<Longrightarrow> y mod 4 = 0"
proof -
  assume "y mod 100 = 0"
  then have "100 dvd y" by (simp add: mod_eq_0_iff_dvd)
  moreover have "(4::int) dvd 100" by simp
  ultimately have "4 dvd y" by (rule dvd_trans[rotated])
  then show ?thesis by (simp add: mod_eq_0_iff_dvd)
qed
lemma two_digit_year:
  assumes "1 \<le> (year::int)" "year \<le> 99"
  shows "(1900 + year) mod 4 = year mod 4" "(1900 + year) mod 100 \<noteq> 0" "year mod 100 \<noteq> 0"
proof -
  have a: "(1900 + year) mod 4 = (year + 4 * 475) mod 4" by (simp add: algebra_simps)
  show "(1900 + year) mod 4 = year mod 4" unfolding a by (rule mod_mult_self2)
  have c: "year mod 100 = year" using assms by simp
  show "year mod 100 \<noteq> 0" using c assms by simp
  have b: "(1900 + year) mod 100 = (year + 100 * 19) mod 100" by (simp add: algebra_simps)
  have "(1900 + year) mod 100 = year mod 100" unfolding b by (rule mod_mult_self2)
  then show "(1900 + year) mod 100 \<noteq> 0" using c assms by simp
qed

lemma DayFromYear_Suc: "DayFromYear (y + 1) = DayFromYear y + DaysInYear y"
proof -
  have a: "(y + 1 - 1969) div 4 = (y - 1969) div 4 + (if y mod 4 = 0 then 1 else 0)"
    using div_step[of 4 "y - 1969"] m4[of y] by (simp add: algebra_simps)
  have b: "(y + 1 - 1901) div 100 = (y - 1901) div 100 + (if y mod 100 = 0 then 1 else 0)"
    using div_step[of 100 "y - 1901"] m100[of y] by (simp add: algebra_simps)
  have c: "(y + 1 - 1601) div 400 = (y - 1601) div 400 + (if y mod 400 = 0 then 1 else 0)"
    using div_step[of 400 "y - 1601"] m400[of y] by (simp add: algebra_simps)
  have d: "y mod 400 = 0 \<Longrightarrow> y mod 100 = 0" by (rule mod_400_100)
  have e: "y mod 100 = 0 \<Longrightarrow> y mod 4 = 0" by (rule mod_100_4)
  show ?thesis
    unfolding DayFromYear_def DaysInYear_def a b c using d e
    by (cases "y mod 4 = 0"; cases "y mod 100 = 0"; cases "y mod 400 = 0") simp_all
qed

lemma DaysInYear_pos: "0 < DaysInYear y"
  by (simp add: DaysInYear_def)

lemma DayFromYear_mono: "y \<le> y' \<Longrightarrow> DayFromYear y \<le> DayFromYear y'"
proof (induction y' rule: int_ge_induct)
  case base
  show ?case by simp
next
  case (step i)
  then show ?case using DayFromYear_Suc[of i] DaysInYear_pos[of i] by linarith
qed

lemma YearFromDay_bounds:
  "DayFromYear (YearFromDay d) \<le> d \<and> d < DayFromYear (YearFromDay d + 1)"
proof -
  define y where "y = 1970 + (400 * d) div 146097"
  have lo: "DayFromYear (y - 1) \<le> d" unfolding y_def by (rule year_estimate_lo)
  have hi: "d < DayFromYear (y + 1 + 1)" using year_estimate_hi[of d] by (simp add: y_def)
  have Y: "YearFromDay d = (if DayFromYear (y + 1) \<le> d then y + 1
     else if DayFromYear y \<le> d then y else y - 1)"
    by (simp add: YearFromDay_def y_def Let_def)
  show ?thesis using lo hi unfolding Y by auto
qed

lemma YearFromDay_unique:
  assumes "DayFromYear y \<le> d" and "d < DayFromYear (y + 1)"
  shows "YearFromDay d = y"
proof (rule ccontr)
  assume ne: "YearFromDay d \<noteq> y"
  note b = YearFromDay_bounds[of d]
  show False
  proof (cases "YearFromDay d < y")
    case True
    then have "DayFromYear (YearFromDay d + 1) \<le> DayFromYear y" by (intro DayFromYear_mono) simp
    with assms b show False by linarith
  next
    case False
    with ne have "DayFromYear (y + 1) \<le> DayFromYear (YearFromDay d)" by (intro DayFromYear_mono) simp
    with assms b show False by linarith
  qed
qed



lemma leapDays_cases: "leapDays y = 0 \<or> leapDays y = 1"
  by (simp add: leapDays_def)

lemma DaysInYear_leapDays: "DaysInYear y = 365 + leapDays y"
  by (simp add: leapDays_def DaysInYear_def)

lemma leapDays_calendar:
  "leapDays y = (if y mod 4 = 0 \<and> (y mod 100 \<noteq> 0 \<or> y mod 400 = 0) then 1 else 0)"
proof -
  have d: "y mod 400 = 0 \<Longrightarrow> y mod 100 = 0" by (rule mod_400_100)
  have e: "y mod 100 = 0 \<Longrightarrow> y mod 4 = 0" by (rule mod_100_4)
  show ?thesis unfolding leapDays_def DaysInYear_def using d e
    by (cases "y mod 4 = 0"; cases "y mod 100 = 0"; cases "y mod 400 = 0") simp_all
qed

lemma calendarMonthLength_leapDays:
  "calendarMonthLength y m = (if m = 1 then 28 + leapDays y
      else if m = 3 \<or> m = 5 \<or> m = 8 \<or> m = 10 then 30 else 31)"
  by (auto simp add: calendarMonthLength_def leapDays_calendar)

lemma month_cases:
  "0 \<le> (m::int) \<Longrightarrow> m \<le> 11 \<Longrightarrow>
     m = 0 \<or> m = 1 \<or> m = 2 \<or> m = 3 \<or> m = 4 \<or> m = 5 \<or> m = 6 \<or> m = 7 \<or> m = 8 \<or> m = 9 \<or> m = 10 \<or> m = 11"
  by arith

lemma leapDays_bounds: "0 \<le> leapDays y" "leapDays y \<le> 1"
  by (simp_all add: leapDays_def)

lemma monthStart_bounds:
  assumes "0 \<le> mn" "mn \<le> 11" "1 \<le> dt" "dt \<le> calendarMonthLength y mn"
  shows "0 \<le> monthStart mn (leapDays y) + dt - 1"
    and "monthStart mn (leapDays y) + dt - 1 < 365 + leapDays y"
  using month_cases[OF assms(1,2)] assms(3,4) leapDays_bounds[of y]
   apply -
   apply (elim disjE)
              apply (simp_all add: monthStart_def calendarMonthLength_leapDays)
  apply (elim disjE)
             apply (simp_all add: monthStart_def calendarMonthLength_leapDays)
  done

lemma civil_year:
  assumes "0 \<le> mn" "mn \<le> 11" "1 \<le> dt" "dt \<le> calendarMonthLength y mn"
  shows "YearFromDay (DayFromYear y + monthStart mn (leapDays y) + dt - 1) = y"
proof (rule YearFromDay_unique)
  show "DayFromYear y \<le> DayFromYear y + monthStart mn (leapDays y) + dt - 1"
    using monthStart_bounds(1)[OF assms] by linarith
  show "DayFromYear y + monthStart mn (leapDays y) + dt - 1 < DayFromYear (y + 1)"
    using monthStart_bounds(2)[OF assms] by (simp add: DayFromYear_Suc DaysInYear_leapDays)
qed

lemma civil_within:
  assumes "0 \<le> mn" "mn \<le> 11" "1 \<le> dt" "dt \<le> calendarMonthLength y mn"
  shows "DayWithinYear (DayFromYear y + monthStart mn (leapDays y) + dt - 1)
           = monthStart mn (leapDays y) + dt - 1"
  by (simp add: DayWithinYear_def civil_year[OF assms])

lemma civil_month:
  assumes "0 \<le> mn" "mn \<le> 11" "1 \<le> dt" "dt \<le> calendarMonthLength y mn"
  shows "MonthFromDay (DayFromYear y + monthStart mn (leapDays y) + dt - 1) = mn"
  unfolding MonthFromDay_def civil_within[OF assms] civil_year[OF assms] Let_def
  using month_cases[OF assms(1,2)] assms(3,4) leapDays_bounds[of y]
  apply -
  apply (elim disjE)
             apply (simp_all add: monthStart_def calendarMonthLength_leapDays)
  done

lemma civil_date:
  assumes "0 \<le> mn" "mn \<le> 11" "1 \<le> dt" "dt \<le> calendarMonthLength y mn"
  shows "DateFromDay (DayFromYear y + monthStart mn (leapDays y) + dt - 1) = dt"
  unfolding DateFromDay_def civil_within[OF assms] civil_year[OF assms] civil_month[OF assms] Let_def
  using month_cases[OF assms(1,2)]
  apply -
  apply (elim disjE)
             apply (simp_all add: monthStart_def)
  done


lemma Day_mult [simp]: "Day (d * msPerDay) = d"
  by (simp add: Day_def msPerDay_def)

lemma MakeDay_month_end:
  assumes "0 \<le> month" "month \<le> 11"
  shows "MakeDay y (month + 1) 0
           = DayFromYear y + monthStart month (leapDays y) + calendarMonthLength y month - 1"
proof (cases "month = 11")
  case True
  then show ?thesis
    by (simp add: MakeDay_def monthStart_def calendarMonthLength_leapDays DayFromYear_Suc
          DaysInYear_leapDays)
next
  case False
  with assms have m: "(month + 1) div 12 = 0" "(month + 1) mod 12 = month + 1" by simp_all
  show ?thesis unfolding MakeDay_def m Let_def
    using month_cases[OF assms] False
    apply -
    apply (elim disjE)
               apply (simp_all add: monthStart_def calendarMonthLength_leapDays)
    done
qed

lemma calendarMonthLength_pos: "1 \<le> calendarMonthLength y m"
  by (simp add: calendarMonthLength_def)

lemma lastDayOf_fullYear:
  assumes "0 \<le> month" "month \<le> 11" "Date_local (tzOffset E) year (month + 1) 0 \<noteq> None"
  shows "lastDayOf E year month = Some (calendarMonthLength (fullYear year) month)"
proof -
  define y where "y = fullYear year"
  define d where "d = DayFromYear y + monthStart month (leapDays y) + calendarMonthLength y month - 1"
  have md: "MakeDay (fullYear year) (month + 1) 0 = d"
    unfolding d_def y_def by (rule MakeDay_month_end[OF assms(1,2)])
  from assms(3) have dl: "Date_local (tzOffset E) year (month + 1) 0 = Some (d * msPerDay - tzOffset E)"
    by (simp add: Date_local_def md MakeDate_def TimeClip_def split: if_splits)
  have "DateFromDay d = calendarMonthLength y month"
    unfolding d_def
    by (rule civil_date[OF assms(1,2) calendarMonthLength_pos]) simp
  then show ?thesis
    by (simp add: lastDayOf_def dl getDate_def DateFromTime_def y_def)
qed

lemma fullYear_same_length:
  assumes "year \<noteq> 0"
  shows "calendarMonthLength (fullYear year) month = calendarMonthLength year month"
proof (cases "0 \<le> year \<and> year \<le> 99")
  case False
  then show ?thesis by (auto simp add: fullYear_def)
next
  case True
  with assms have r: "1 \<le> year" "year \<le> 99" by simp_all
  note a = two_digit_year(1)[OF r] and b = two_digit_year(2)[OF r] and c = two_digit_year(3)[OF r]
  from True have f: "fullYear year = 1900 + year" by (simp add: fullYear_def)
  show ?thesis unfolding f calendarMonthLength_def using a b c by simp
qed


section \<open>The PERSCOM client: facts and claims\<close>

lemma requestsOf_append: "requestsOf (xs @ ys) = requestsOf xs @ requestsOf ys"
  by (induction xs rule: requestsOf.induct) simp_all

lemma responsesOf_append: "responsesOf (xs @ ys) = responsesOf xs @ responsesOf ys"
  by (induction xs rule: responsesOf.induct) simp_all

lemma errorsOf_append: "errorsOf (xs @ ys) = errorsOf xs @ errorsOf ys"
  by (induction xs rule: errorsOf.induct) simp_all

lemma deleteUser_requests:
  "requestsOf (fst (deleteUser fetch w user)) = [DeleteUser (du_user_id user)]"
  by (simp add: deleteUser_def Let_def split: prod.splits response.splits option.splits)

lemma deleteUser_errors:
  "length (errorsOf (fst (deleteUser fetch w user)))
     = length (filter deletionFailed (responsesOf (fst (deleteUser fetch w user))))"
  by (simp add: deleteUser_def deletionFailed_def Let_def split: prod.splits response.splits option.splits)

text \<open>
  Claim C7. \<open>deleteUsers\<close> issues one DELETE request for every user of its list, in order,
  whatever the answers are, and writes one \<open>console.error\<close> for every request that failed:
  a failure for one user does not keep the later users from being attempted.
\<close>

theorem deleteUsers_attempts_every_user:
  "requestsOf (fst (deleteUsers fetch w users)) = map (\<lambda>user. DeleteUser (du_user_id user)) users
   \<and> length (errorsOf (fst (deleteUsers fetch w users)))
       = length (filter deletionFailed (responsesOf (fst (deleteUsers fetch w users))))"
proof (induction users arbitrary: w)
  case Nil
  show ?case by simp
next
  case (Cons user users)
  obtain evs w' where d: "deleteUser fetch w user = (evs, w')" by (cases "deleteUser fetch w user")
  obtain evs' w'' where r: "deleteUsers fetch w' users = (evs', w'')" by (cases "deleteUsers fetch w' users")
  have 1: "requestsOf evs = [DeleteUser (du_user_id user)]"
    using deleteUser_requests[of fetch w user] d by simp
  have 2: "length (errorsOf evs) = length (filter deletionFailed (responsesOf evs))"
    using deleteUser_errors[of fetch w user] d by simp
  from Cons.IH[of w'] r 1 2 d show ?case
    by (simp add: requestsOf_append responsesOf_append errorsOf_append)
qed

theorem deleteUsers_attempts_every_user_witness:
  "requestsOf (fst (deleteUsers sampleServer 0 sampleUsers)) = [DeleteUser 7, DeleteUser 8, DeleteUser 9]
   \<and> length (errorsOf (fst (deleteUsers sampleServer 0 sampleUsers))) = 2"
proof -
  have r: "responsesOf (fst (deleteUsers sampleServer 0 sampleUsers)) =
     [NetworkError, HttpResponse False 404 ''Not Found'' (Some ''no such user'') None,
      HttpResponse True 200 ''OK'' None (Some \<lparr>data = None, meta_last_page = None\<rparr>)]"
    by (simp add: sampleUsers_def sampleUser_def sampleServer_def deleteUser_def Let_def)
  from deleteUsers_attempts_every_user[of sampleServer 0 sampleUsers] r show ?thesis
    by (simp add: sampleUsers_def sampleUser_def deletionFailed_def)
qed

lemma pageLoop_origin:
  "pageLoop fetch lastPage page w acc = (res, evs, w') \<Longrightarrow> x \<in> set res \<Longrightarrow>
     x \<in> set acc \<or>
     (\<exists>p r s. page \<le> p \<and> p \<le> lastPage \<and> Fetched (GetSubmissionsPage p) r \<in> set evs
        \<and> s \<in> set (servedOn r) \<and> sub_form_id s = 1 \<and> x = toForm1 s)"
proof (induction fetch lastPage page w acc arbitrary: res evs w' rule: pageLoop.induct)
  case (1 fetch lastPage page w acc)
  show ?case
  proof (cases "page \<le> lastPage")
    case False
    with "1.prems" show ?thesis by (simp add: pageLoop.simps)
  next
    case True
    obtain r w1 where f: "fetch w (GetSubmissionsPage page) = (r, w1)"
      by (cases "fetch w (GetSubmissionsPage page)")
    show ?thesis
    proof (cases r)
      case NetworkError
      with "1.prems" True f show ?thesis by (simp add: pageLoop.simps)
    next
      case (HttpResponse ok st stt btext json)
      show ?thesis
      proof (cases "ok \<and> (case json of None \<Rightarrow> None | Some b \<Rightarrow> data b) \<noteq> None")
        case False
        with "1.prems" True f HttpResponse show ?thesis
          by (auto simp add: pageLoop.simps[of fetch lastPage page] Let_def split: option.splits if_splits)
      next
        case ok: True
        then obtain b subs where j: "json = Some b" and db: "data b = Some subs" and okT: ok
          by (auto split: option.splits)
        define form1 where "form1 = map toForm1 (filter (\<lambda>submission. sub_form_id submission = 1) subs)"
        obtain res2 evs2 w2 where rec: "pageLoop fetch lastPage (page + 1) w1 (acc @ form1) = (res2, evs2, w2)"
          by (cases "pageLoop fetch lastPage (page + 1) w1 (acc @ form1)") auto
        have res: "res = res2" and evs: "evs = Fetched (GetSubmissionsPage page) r # evs2"
          using "1.prems"(1) True f HttpResponse j db okT rec
          by (simp_all add: pageLoop.simps[of fetch lastPage page] Let_def form1_def)
        have dj: "(case json of None \<Rightarrow> None | Some b \<Rightarrow> data b) = Some subs" using j db by simp
        have IH: "x \<in> set (acc @ form1) \<or>
          (\<exists>p r s. page + 1 \<le> p \<and> p \<le> lastPage \<and> Fetched (GetSubmissionsPage p) r \<in> set evs2
             \<and> s \<in> set (servedOn r) \<and> sub_form_id s = 1 \<and> x = toForm1 s)"
        proof (rule "1.IH"[OF True f[symmetric] HttpResponse refl _ dj form1_def rec])
          show "\<not> \<not> ok" using okT by simp
          show "x \<in> set res2" using "1.prems"(2) res by simp
        qed
        have sv: "servedOn r = subs" using HttpResponse j db by (simp add: servedOn_def)
        from IH show ?thesis
        proof (elim disjE exE conjE)
          assume "x \<in> set (acc @ form1)"
          then consider "x \<in> set acc" | "x \<in> set form1" by auto
          then show ?thesis
          proof cases
            case 1 then show ?thesis by simp
          next
            case 2
            then obtain s where "s \<in> set subs" "sub_form_id s = 1" "x = toForm1 s"
              by (auto simp: form1_def)
            then show ?thesis using True sv evs by (intro disjI2 exI[of _ page] exI[of _ r] exI[of _ s]) simp
          qed
        next
          fix p r' s
          assume "page + 1 \<le> p" "p \<le> lastPage" "Fetched (GetSubmissionsPage p) r' \<in> set evs2"
            "s \<in> set (servedOn r')" "sub_form_id s = 1" "x = toForm1 s"
          then show ?thesis using evs by (intro disjI2 exI[of _ p] exI[of _ r'] exI[of _ s]) simp
        qed
      qed
    qed
  qed
qed

lemma pageLoop_requests:
  "pageLoop fetch lastPage page w acc = (res, evs, w') \<Longrightarrow> q \<in> set (requestsOf evs) \<Longrightarrow>
     \<exists>p. q = GetSubmissionsPage p \<and> page \<le> p \<and> p \<le> lastPage"
proof (induction fetch lastPage page w acc arbitrary: res evs w' rule: pageLoop.induct)
  case (1 fetch lastPage page w acc)
  show ?case
  proof (cases "page \<le> lastPage")
    case False
    with "1.prems" show ?thesis by (simp add: pageLoop.simps)
  next
    case True
    obtain r w1 where f: "fetch w (GetSubmissionsPage page) = (r, w1)"
      by (cases "fetch w (GetSubmissionsPage page)")
    show ?thesis
    proof (cases r)
      case NetworkError
      with "1.prems" True f show ?thesis by (auto simp add: pageLoop.simps[of fetch lastPage page])
    next
      case (HttpResponse ok st stt btext json)
      show ?thesis
      proof (cases "ok \<and> (case json of None \<Rightarrow> None | Some b \<Rightarrow> data b) \<noteq> None")
        case False
        with "1.prems" True f HttpResponse show ?thesis
          by (auto simp add: pageLoop.simps[of fetch lastPage page] Let_def split: option.splits if_splits)
      next
        case ok: True
        then obtain b subs where j: "json = Some b" and db: "data b = Some subs" and okT: ok
          by (auto split: option.splits)
        define form1 where "form1 = map toForm1 (filter (\<lambda>submission. sub_form_id submission = 1) subs)"
        obtain res2 evs2 w2 where rec: "pageLoop fetch lastPage (page + 1) w1 (acc @ form1) = (res2, evs2, w2)"
          by (cases "pageLoop fetch lastPage (page + 1) w1 (acc @ form1)") auto
        have evs: "evs = Fetched (GetSubmissionsPage page) r # evs2"
          using "1.prems"(1) True f HttpResponse j db okT rec
          by (simp_all add: pageLoop.simps[of fetch lastPage page] Let_def form1_def)
        have dj: "(case json of None \<Rightarrow> None | Some b \<Rightarrow> data b) = Some subs" using j db by simp
        from "1.prems"(2) evs consider "q = GetSubmissionsPage page" | "q \<in> set (requestsOf evs2)" by auto
        then show ?thesis
        proof cases
          case 1 then show ?thesis using True by simp
        next
          case 2
          have "\<exists>p. q = GetSubmissionsPage p \<and> page + 1 \<le> p \<and> p \<le> lastPage"
          proof (rule "1.IH"[OF True f[symmetric] HttpResponse refl _ dj form1_def rec])
            show "\<not> \<not> ok" using okT by simp
            show "q \<in> set (requestsOf evs2)" by (rule 2)
          qed
          then show ?thesis by auto
        qed
      qed
    qed
  qed
qed

lemma getAllForm1Data_origin:
  assumes "getAllForm1Data fetch w = (res, evs, w')" and "x \<in> set res"
  shows "\<exists>p r s. 4 \<le> p \<and> Fetched (GetSubmissionsPage p) r \<in> set evs
           \<and> s \<in> set (servedOn r) \<and> sub_form_id s = 1 \<and> x = toForm1 s"
proof -
  obtain r0 w0 where f: "fetch w GetSubmissions = (r0, w0)" by (cases "fetch w GetSubmissions")
  show ?thesis
  proof (cases r0)
    case NetworkError
    with assms f show ?thesis by (simp add: getAllForm1Data_def)
  next
    case (HttpResponse ok st stt btext json)
    show ?thesis
    proof (cases "ok \<and> (\<exists>lastPage. (case json of None \<Rightarrow> None | Some b \<Rightarrow> meta_last_page b) = Some (Some lastPage))")
      case False
      with assms f HttpResponse show ?thesis
        by (auto simp add: getAllForm1Data_def Let_def split: option.splits if_splits)
    next
      case True
      then obtain lastPage where okT: ok
        and lp: "(case json of None \<Rightarrow> None | Some b \<Rightarrow> meta_last_page b) = Some (Some lastPage)"
        by auto
      obtain res2 evs2 w2 where rec: "pageLoop fetch lastPage 4 w0 [] = (res2, evs2, w2)"
        by (cases "pageLoop fetch lastPage 4 w0 []") auto
      have res: "res = res2" and evs: "evs = Fetched GetSubmissions r0 # evs2"
        using assms(1) f HttpResponse okT lp rec by (simp_all add: getAllForm1Data_def Let_def)
      from pageLoop_origin[OF rec, of x] assms(2) res
      obtain p r s where "4 \<le> p" "Fetched (GetSubmissionsPage p) r \<in> set evs2"
        "s \<in> set (servedOn r)" "sub_form_id s = 1" "x = toForm1 s" by auto
      then show ?thesis using evs by (intro exI[of _ p] exI[of _ r] exI[of _ s]) simp
    qed
  qed
qed

lemma getAllForm1Data_requests:
  assumes "getAllForm1Data fetch w = (res, evs, w')" and "q \<in> set (requestsOf evs)"
  shows "q = GetSubmissions \<or> (\<exists>p. q = GetSubmissionsPage p \<and> 4 \<le> p)"
proof -
  obtain r0 w0 where f: "fetch w GetSubmissions = (r0, w0)" by (cases "fetch w GetSubmissions")
  show ?thesis
  proof (cases r0)
    case NetworkError
    with assms f show ?thesis by (auto simp add: getAllForm1Data_def)
  next
    case (HttpResponse ok st stt btext json)
    show ?thesis
    proof (cases "ok \<and> (\<exists>lastPage. (case json of None \<Rightarrow> None | Some b \<Rightarrow> meta_last_page b) = Some (Some lastPage))")
      case False
      with assms f HttpResponse show ?thesis
        by (auto simp add: getAllForm1Data_def Let_def split: option.splits if_splits)
    next
      case True
      then obtain lastPage where okT: ok
        and lp: "(case json of None \<Rightarrow> None | Some b \<Rightarrow> meta_last_page b) = Some (Some lastPage)"
        by auto
      obtain res2 evs2 w2 where rec: "pageLoop fetch lastPage 4 w0 [] = (res2, evs2, w2)"
        by (cases "pageLoop fetch lastPage 4 w0 []") auto
      have evs: "evs = Fetched GetSubmissions r0 # evs2"
        using assms(1) f HttpResponse okT lp rec by (simp_all add: getAllForm1Data_def Let_def)
      from assms(2) evs consider "q = GetSubmissions" | "q \<in> set (requestsOf evs2)" by auto
      then show ?thesis
      proof cases
        case 1 then show ?thesis by simp
      next
        case 2
        from pageLoop_requests[OF rec 2] show ?thesis by auto
      qed
    qed
  qed
qed

lemma sample_run:
  "getAllForm1Data sampleServer 0 =
     ([toForm1 (sampleSubmission 40 1)],
      [Fetched GetSubmissions (samplePage 1), Fetched (GetSubmissionsPage 4) (samplePage 4)], 2)"
  by (simp add: getAllForm1Data_def sampleServer_def samplePage_def pageLoop.simps[of _ 4 4]
        pageLoop.simps[of _ 4 5] sampleSubmission_def Let_def)

text \<open>
  Claim C8. The paging loop of \<open>getAllForm1Data\<close> starts at the hardcoded page 4: every page it
  requests has a number of at least 4, and every element of the returned list is built from
  a submission carried by the response to such a request. A submission that the server
  carries only on pages 1 to 3 is in no response the result is built from.
\<close>

theorem getAllForm1Data_starts_at_page_4:
  assumes "getAllForm1Data fetch w = (res, evs, w')"
  shows "(\<forall>q \<in> set (requestsOf evs). q = GetSubmissions \<or> (\<exists>p. q = GetSubmissionsPage p \<and> 4 \<le> p))
       \<and> (\<forall>x \<in> set res. \<exists>p r s. 4 \<le> p \<and> Fetched (GetSubmissionsPage p) r \<in> set evs
              \<and> s \<in> set (servedOn r) \<and> x = toForm1 s)"
  using getAllForm1Data_requests[OF assms] getAllForm1Data_origin[OF assms] by blast

theorem getAllForm1Data_starts_at_page_4_witness:
  "getAllForm1Data sampleServer 0 =
     ([toForm1 (sampleSubmission 40 1)],
      [Fetched GetSubmissions (samplePage 1), Fetched (GetSubmissionsPage 4) (samplePage 4)], 2)
   \<and> (GetSubmissionsPage 4 = GetSubmissions \<or> (\<exists>p. GetSubmissionsPage 4 = GetSubmissionsPage p \<and> 4 \<le> p))
   \<and> (\<exists>p r s. 4 \<le> p
         \<and> Fetched (GetSubmissionsPage p) r \<in> set [Fetched GetSubmissions (samplePage 1), Fetched (GetSubmissionsPage 4) (samplePage 4)]
         \<and> s \<in> set (servedOn r) \<and> toForm1 (sampleSubmission 40 1) = toForm1 s)"
proof -
  note t = getAllForm1Data_starts_at_page_4[OF sample_run]
  from t have "\<forall>q \<in> set [GetSubmissions, GetSubmissionsPage 4].
      q = GetSubmissions \<or> (\<exists>p. q = GetSubmissionsPage p \<and> 4 \<le> p)" by simp
  then have 1: "GetSubmissionsPage 4 = GetSubmissions \<or> (\<exists>p. GetSubmissionsPage 4 = GetSubmissionsPage p \<and> 4 \<le> p)"
    by simp
  from t have 2: "\<exists>p r s. 4 \<le> p
         \<and> Fetched (GetSubmissionsPage p) r \<in> set [Fetched GetSubmissions (samplePage 1), Fetched (GetSubmissionsPage 4) (samplePage 4)]
         \<and> s \<in> set (servedOn r) \<and> toForm1 (sampleSubmission 40 1) = toForm1 s"
    by simp
  from sample_run 1 2 show ?thesis by blast
qed

text \<open>
  Claim C10. Every element of the list returned by \<open>getAllForm1Data\<close> is built from a fetched
  submission whose \<open>form_id\<close> is 1, and its own \<open>form_id\<close> is the \<open>id\<close> of that submission.
\<close>

theorem getAllForm1Data_form_id_is_submission_id:
  assumes "getAllForm1Data fetch w = (res, evs, w')"
  shows "\<forall>x \<in> set res. \<exists>p r s. Fetched (GetSubmissionsPage p) r \<in> set evs \<and> s \<in> set (servedOn r)
            \<and> sub_form_id s = 1 \<and> x = toForm1 s \<and> f1_form_id x = sub_id s"
proof
  fix x assume "x \<in> set res"
  from getAllForm1Data_origin[OF assms this]
  obtain p r s where "Fetched (GetSubmissionsPage p) r \<in> set evs" "s \<in> set (servedOn r)"
    "sub_form_id s = 1" "x = toForm1 s" by blast
  moreover from this have "f1_form_id x = sub_id s" by (simp add: toForm1_def)
  ultimately show "\<exists>p r s. Fetched (GetSubmissionsPage p) r \<in> set evs \<and> s \<in> set (servedOn r)
            \<and> sub_form_id s = 1 \<and> x = toForm1 s \<and> f1_form_id x = sub_id s" by blast
qed

theorem getAllForm1Data_form_id_is_submission_id_witness:
  "getAllForm1Data sampleServer 0 =
     ([toForm1 (sampleSubmission 40 1)],
      [Fetched GetSubmissions (samplePage 1), Fetched (GetSubmissionsPage 4) (samplePage 4)], 2)
   \<and> f1_form_id (toForm1 (sampleSubmission 40 1)) = 40
   \<and> (\<exists>p r s.
         Fetched (GetSubmissionsPage p) r \<in> set [Fetched GetSubmissions (samplePage 1), Fetched (GetSubmissionsPage 4) (samplePage 4)]
         \<and> s \<in> set (servedOn r) \<and> sub_form_id s = 1 \<and> toForm1 (sampleSubmission 40 1) = toForm1 s
         \<and> f1_form_id (toForm1 (sampleSubmission 40 1)) = sub_id s)"
proof -
  have 1: "f1_form_id (toForm1 (sampleSubmission 40 1)) = 40"
    by (simp add: toForm1_def sampleSubmission_def)
  from getAllForm1Data_form_id_is_submission_id[OF sample_run]
  have 2: "\<exists>p r s.
         Fetched (GetSubmissionsPage p) r \<in> set [Fetched GetSubmissions (samplePage 1), Fetched (GetSubmissionsPage 4) (samplePage 4)]
         \<and> s \<in> set (servedOn r) \<and> sub_form_id s = 1 \<and> toForm1 (sampleSubmission 40 1) = toForm1 s
         \<and> f1_form_id (toForm1 (sampleSubmission 40 1)) = sub_id s"
    by simp
  from sample_run 1 2 show ?thesis by blast
qed

section \<open>The attendance command: claims\<close>

lemma split_13_2024: "split CHR ''/'' ''13/2024'' = [''13'', ''2024'']"
  by simp

lemma parseInt_13: "parseInt ''13'' = Some 13"
  by code_simp

lemma parseInt_2024: "parseInt ''2024'' = Some 2024"
  by code_simp

text \<open>
  Claim C1, as amended. Whatever the month option, the clock and the guild are, the custom date
  \<open>13/2024\<close> makes \<open>execute\<close> answer with the format error and return: the only actions
  are \<open>deferReply\<close> and that \<open>editReply\<close>, and no member fetch is made.
\<close>

theorem execute_rejects_custom_13_2024:
  "execute E today requestedMonth (Some ''13/2024'') hasGuild = [DeferReply, EditReply invalidFormat]"
  by (simp add: execute_def selectMonth_def split_13_2024 parseInt_13 parseInt_2024 parseIntU_def
      del: split.simps)

theorem execute_rejects_custom_13_2024_witness:
  "execute sampleEnv sampleNow (Some ''0'') (Some ''13/2024'') True
     = [DeferReply, EditReply ''Invalid date format. Please use MM/YYYY format (e.g., 02/2024)'']"
  using execute_rejects_custom_13_2024[of sampleEnv sampleNow "Some ''0''" True]
  by (simp add: invalidFormat_def)

text \<open>
  The claim as stated fails for the month option: with \<open>month = "13"\<close> and no custom date,
  on 2024-01-04, \<open>execute\<close> replies nothing and goes on to fetch the members of the guild,
  with \<open>currentMonth = 13\<close> and \<open>currentYear = 2023\<close>.
\<close>

theorem execute_month_option_13_counterexample:
  "execute sampleEnv sampleNow (Some ''13'') None True = [DeferReply, FetchGuildMembers 2023 (Some 13)]"
  by code_simp

text \<open>
  Claim C6, as amended. For every month index 0..11 and every year other than 0 for which
  \<open>new Date(year, month + 1, 0)\<close> is a valid Date, the number of days the loop iterates over
  is the calendar-correct length of the month.
\<close>

theorem lastDay_is_calendar_month_length:
  assumes "0 \<le> month" "month \<le> 11" "year \<noteq> 0"
    and "Date_local (tzOffset E) year (month + 1) 0 \<noteq> None"
  shows "lastDayOf E year month = Some (calendarMonthLength year month)"
  using lastDayOf_fullYear[OF assms(1,2,4)] fullYear_same_length[OF assms(3)] by simp

theorem lastDay_is_calendar_month_length_witness:
  "(0::int) \<le> 1 \<and> (1::int) \<le> 11 \<and> (2024::int) \<noteq> 0
   \<and> Date_local (tzOffset sampleEnv) 2024 (1 + 1) 0 \<noteq> None
   \<and> lastDayOf sampleEnv 2024 1 = Some 29"
proof -
  have h: "Date_local (tzOffset sampleEnv) 2024 (1 + 1) 0 \<noteq> None" by code_simp
  from lastDay_is_calendar_month_length[of 1 2024 sampleEnv, OF _ _ _ h] h show ?thesis
    by (simp add: calendarMonthLength_def)
qed

text \<open>
  The claim as stated fails in two places. A year 0..99 is read by \<open>Date\<close> as 1900 + year:
  for February of year 0, a leap year of the calendar, the loop has 28 days, those of
  February 1900. And beyond the range of \<open>Date\<close> the count is NaN: no iteration at all.
\<close>

theorem lastDay_year_0_counterexample:
  "lastDayOf sampleEnv 0 1 = Some 28 \<and> calendarMonthLength 0 1 = 29
   \<and> lastDayOf sampleEnv 300000 1 = None"
  by code_simp

end
